theory Spec2Isabelle
  imports Main "HOL-Library.Sublist"
begin

section \<open>Text: characters, lower-casing, integers\<close>

text \<open>
  Queries and record fields are Python strings, modelled as \<open>string\<close>. The character
  classes below are those of Python's \<open>re\<close> on ASCII text: \<open>\d\<close> is 0-9, \<open>\s\<close> is
  the space, the controls 9-13 and the separators 28-31, a word character (for \<open>\b\<close>) is a
  letter, a digit or the underscore. Characters beyond ASCII are in no class and have no
  lower case in this model.
\<close>

definition is_digit :: "char \<Rightarrow> bool" where
  "is_digit c = (let n = (of_char c :: nat) in 48 \<le> n \<and> n \<le> 57)"

definition is_space :: "char \<Rightarrow> bool" where
  "is_space c = (let n = (of_char c :: nat) in n = 32 \<or> (9 \<le> n \<and> n \<le> 13) \<or> (28 \<le> n \<and> n \<le> 31))"

definition is_word :: "char \<Rightarrow> bool" where
  "is_word c = (let n = (of_char c :: nat) in
     (48 \<le> n \<and> n \<le> 57) \<or> (65 \<le> n \<and> n \<le> 90) \<or> (97 \<le> n \<and> n \<le> 122) \<or> n = 95)"

definition lower_char :: "char \<Rightarrow> char" where
  "lower_char c = (let n = (of_char c :: nat) in if 65 \<le> n \<and> n \<le> 90 then char_of (n + 32) else c)"

text \<open>\<open>str.lower()\<close>.\<close>

definition lower :: "string \<Rightarrow> string" where
  "lower s = map lower_char s"

text \<open>\<open>int(s)\<close> on a string of decimal digits; Python's integers are unbounded.\<close>

definition py_int :: "string \<Rightarrow> int" where
  "py_int s = foldl (\<lambda>n c. 10 * n + (int (of_char c) - 48)) 0 s"

text \<open>\<open>sub in s\<close> on strings: \<open>sub\<close> occurs in \<open>s\<close> as a contiguous piece.\<close>

fun contains :: "string \<Rightarrow> string \<Rightarrow> bool" where
  "contains sub [] = (sub = [])"
| "contains sub (x # xs) = (prefix sub (x # xs) \<or> contains sub xs)"

section \<open>The regular expressions of the source\<close>

text \<open>
  The fragment of \<open>re\<close> that \<open>queryprocessor.py\<close> uses: literal characters, the greedy
  repetitions \<open>\d+\<close> and \<open>\s*\<close>, the word boundary \<open>\b\<close>, concatenation, alternation
  and capturing groups.
\<close>

datatype cclass = Digit | Space

fun in_class :: "cclass \<Rightarrow> char \<Rightarrow> bool" where
  "in_class Digit c = is_digit c"
| "in_class Space c = is_space c"

datatype re =
    Eps
  | Lit char
  | Many0 cclass
  | Many1 cclass
  | WordB
  | Cat re re
  | Alt re re
  | Grp re

text \<open>
  A matcher state is the character just before the position (None at the start of the
  text), the text still ahead, and the groups captured so far in the order they closed.
\<close>

type_synonym mstate = "char option \<times> string \<times> string list"

text \<open>
  \<open>\b\<close> holds where exactly one of the two neighbouring characters is a word character;
  the start and the end of the text count as non-word.
\<close>

definition at_boundary :: "char option \<Rightarrow> string \<Rightarrow> bool" where
  "at_boundary p r =
     ((case p of None \<Rightarrow> False | Some c \<Rightarrow> is_word c) \<noteq> (case r of [] \<Rightarrow> False | c # _ \<Rightarrow> is_word c))"

text \<open>
  Greedy repetition of a class: every way to stop, the longest first, which is the order
  in which a backtracking matcher tries them.
\<close>

fun greedy :: "cclass \<Rightarrow> char option \<Rightarrow> string \<Rightarrow> string list \<Rightarrow> mstate list" where
  "greedy k p [] g = [(p, [], g)]"
| "greedy k p (x # xs) g =
     (if in_class k x then greedy k (Some x) xs g else []) @ [(p, x # xs, g)]"

text \<open>
  All the ways the expression matches at a position, in the matcher's order of
  preference; the match \<open>re\<close> reports is the first.
\<close>

fun ms :: "re \<Rightarrow> mstate \<Rightarrow> mstate list" where
  "ms Eps s = [s]"
| "ms (Lit c) (p, r, g) =
     (case r of [] \<Rightarrow> [] | x # xs \<Rightarrow> if x = c then [(Some x, xs, g)] else [])"
| "ms (Many0 k) (p, r, g) = greedy k p r g"
| "ms (Many1 k) (p, r, g) =
     (case r of [] \<Rightarrow> [] | x # xs \<Rightarrow> if in_class k x then greedy k (Some x) xs g else [])"
| "ms WordB (p, r, g) = (if at_boundary p r then [(p, r, g)] else [])"
| "ms (Cat a b) s = concat (map (ms b) (ms a s))"
| "ms (Alt a b) s = ms a s @ ms b s"
| "ms (Grp a) (p, r, g) =
     map (\<lambda>(p', r', g'). (p', r', g' @ [take (length r - length r') r])) (ms a (p, r, g))"

text \<open>\<open>re.search\<close>: the first match at the leftmost position that has one.\<close>

fun search_from :: "re \<Rightarrow> char option \<Rightarrow> string \<Rightarrow> mstate option" where
  "search_from e p [] = (case ms e (p, [], []) of [] \<Rightarrow> None | s # _ \<Rightarrow> Some s)"
| "search_from e p (x # xs) =
     (case ms e (p, x # xs, []) of [] \<Rightarrow> search_from e (Some x) xs | s # _ \<Rightarrow> Some s)"

definition re_search :: "re \<Rightarrow> string \<Rightarrow> mstate option" where
  "re_search e s = search_from e None s"

text \<open>\<open>m.group(n)\<close>, for \<open>n \<ge> 1\<close>.\<close>

definition group :: "mstate \<Rightarrow> nat \<Rightarrow> string" where
  "group m n = snd (snd m) ! (n - 1)"

text \<open>A run of literal characters.\<close>

fun lits :: "string \<Rightarrow> re" where
  "lits [] = Eps"
| "lits (c # cs) = Cat (Lit c) (lits cs)"

text \<open>\<open>(w1|w2|...)\<close> without the group.\<close>

fun alts :: "string list \<Rightarrow> re" where
  "alts [] = Eps"
| "alts [w] = lits w"
| "alts (w # ws) = Alt (lits w) (alts ws)"

definition bslash :: char where
  "bslash = CHR 0x5C"

text \<open>
  A vocabulary entry is pattern source spliced into \<open>\b...\b\<close>. Every entry of the two
  vocabularies is literal text in which a backslash quotes the character after it, and
  that is how a token is read here. The reading is that of \<open>re\<close> for the entries of
  the two vocabularies, the only tokens \<open>extract_constraints\<close> emits; a token with
  other operators of \<open>re\<close> (a bare \<open>+\<close>, a parenthesis) is outside it, and a
  statement that depends on what a token matches assumes vocabulary tokens.
\<close>

fun token_re :: "string \<Rightarrow> re" where
  "token_re [] = Eps"
| "token_re [c] = Lit c"
| "token_re (c # d # cs) =
     (if c = bslash then Cat (Lit d) (token_re cs) else Cat (Lit c) (token_re (d # cs)))"

text \<open>\<open>re.search(rf"\b{token}\b", text)\<close> as a truth value.\<close>

definition word_search :: "string \<Rightarrow> string \<Rightarrow> bool" where
  "word_search token text = (re_search (Cat WordB (Cat (token_re token) WordB)) text \<noteq> None)"

section \<open>Constraint extraction\<close>

record constraints =
  max_duration :: "int option"
  duration :: "int option"
  skills :: "string list option"
  test_types :: "string list option"

text \<open>\<open>(\d+)\s*minutes\<close>\<close>

definition time_pattern :: re where
  "time_pattern = Cat (Grp (Many1 Digit)) (Cat (Many0 Space) (lits ''minutes''))"

text \<open>\<open>(less than|max|maximum|under|within|up to)\s*(\d+)\s*min\<close>\<close>

definition max_time_pattern :: re where
  "max_time_pattern =
     Cat (Grp (alts [''less than'', ''max'', ''maximum'', ''under'', ''within'', ''up to'']))
      (Cat (Many0 Space) (Cat (Grp (Many1 Digit)) (Cat (Many0 Space) (lits ''min''))))"

definition tech_skills :: "string list" where
  "tech_skills =
     [''java'', ''python'', ''javascript'', ''js'', ''sql'', ''react'', ''angular'', ''node'',
      [CHR ''c'', bslash, CHR ''+'', bslash, CHR ''+''], ''c#'']"

definition test_types_vocab :: "string list" where
  "test_types_vocab =
     [''cognitive'', ''personality'', ''behavior'', ''situational'', ''technical'', ''coding'']"

text \<open>
  \<open>found = []; for w in vocab: if re.search(rf"\b{w}\b", text): found.append(w)\<close>, and the
  key is set only when something was found.
\<close>

definition found_in :: "string list \<Rightarrow> string \<Rightarrow> string list option" where
  "found_in vocab text =
     (let found = filter (\<lambda>w. word_search w text) vocab
      in if found \<noteq> [] then Some found else None)"

definition extract_constraints :: "string \<Rightarrow> constraints" where
  "extract_constraints query =
     (let max_time_match = re_search max_time_pattern (lower query);
          time_match = re_search time_pattern query
      in \<lparr> max_duration =
             (case max_time_match of None \<Rightarrow> None | Some m \<Rightarrow> Some (py_int (group m 2))),
           duration =
             (case time_match of
                None \<Rightarrow> None
              | Some m \<Rightarrow> if max_time_match = None then Some (py_int (group m 1)) else None),
           skills = found_in tech_skills (lower query),
           test_types = found_in test_types_vocab (lower query) \<rparr>)"

section \<open>Assessment records and the constraint filter\<close>

text \<open>
  A record is a flat dictionary of text fields; a key may be missing, which is None.
\<close>

record assessment =
  name :: "string option"
  url :: "string option"
  description :: "string option"
  duration :: "string option"
  remote_testing :: "string option"
  adaptive_irt :: "string option"
  test_type :: "string option"

text \<open>\<open>a.get(key, "")\<close>\<close>

definition get_or_empty :: "string option \<Rightarrow> string" where
  "get_or_empty v = (case v of None \<Rightarrow> [] | Some s \<Rightarrow> s)"

text \<open>
  \<open>"duration" in a and re.search(r"(\d+)", a["duration"])\<close>, and then
  \<open>int(re.search(r"(\d+)", a["duration"]).group(1))\<close>: the first run of digits of the
  field, None when the key is missing or the text has no digit.
\<close>

definition duration_value :: "assessment \<Rightarrow> int option" where
  "duration_value a =
     (case assessment.duration a of
        None \<Rightarrow> None
      | Some d \<Rightarrow>
          (case re_search (Grp (Many1 Digit)) d of
             None \<Rightarrow> None
           | Some m \<Rightarrow> Some (py_int (group m 1))))"

text \<open>Stage 1: the two list comprehensions on the duration; there is no test of the result.\<close>

definition duration_stage :: "constraints \<Rightarrow> assessment list \<Rightarrow> assessment list" where
  "duration_stage cs filtered =
     (case max_duration cs of
        Some d \<Rightarrow>
          filter (\<lambda>a. case duration_value a of None \<Rightarrow> False | Some n \<Rightarrow> n \<le> d) filtered
      | None \<Rightarrow>
          (case constraints.duration cs of
             Some d \<Rightarrow>
               filter (\<lambda>a. case duration_value a of None \<Rightarrow> False | Some n \<Rightarrow> n = d) filtered
           | None \<Rightarrow> filtered))"

text \<open>The inner loop of stage 2, left at the first skill that matches.\<close>

definition skill_hit :: "string list \<Rightarrow> assessment \<Rightarrow> bool" where
  "skill_hit sk a =
     list_ex (\<lambda>skill. word_search skill (lower (get_or_empty (name a)))
                    \<or> word_search skill (lower (get_or_empty (description a)))) sk"

text \<open>Stage 2: \<open>if skill_matches: filtered = skill_matches\<close>.\<close>

definition skills_stage :: "constraints \<Rightarrow> assessment list \<Rightarrow> assessment list" where
  "skills_stage cs filtered =
     (case skills cs of
        None \<Rightarrow> filtered
      | Some sk \<Rightarrow>
          if sk \<noteq> [] then
            (let skill_matches = filter (skill_hit sk) filtered
             in if skill_matches \<noteq> [] then skill_matches else filtered)
          else filtered)"

text \<open>The inner loop of stage 3: a substring of the type label, or a whole word of the description.\<close>

definition type_hit :: "string list \<Rightarrow> assessment \<Rightarrow> bool" where
  "type_hit ts a =
     (let test_type = lower (get_or_empty (assessment.test_type a))
      in list_ex (\<lambda>t_type. contains t_type test_type
                          \<or> word_search t_type (lower (get_or_empty (description a)))) ts)"

definition types_stage :: "constraints \<Rightarrow> assessment list \<Rightarrow> assessment list" where
  "types_stage cs filtered =
     (case test_types cs of
        None \<Rightarrow> filtered
      | Some ts \<Rightarrow>
          if ts \<noteq> [] then
            (let type_matches = filter (type_hit ts) filtered
             in if type_matches \<noteq> [] then type_matches else filtered)
          else filtered)"

definition filter_assessments :: "assessment list \<Rightarrow> constraints \<Rightarrow> assessment list" where
  "filter_assessments assessments cs =
     types_stage cs (skills_stage cs (duration_stage cs assessments))"

section \<open>The semantic index and the orchestrator\<close>

datatype error = Exception string

text \<open>
  What \<open>collection.query\<close> answers: the value under the key \<open>metadatas\<close>, one list of
  records for each query text; None when the answer is empty or has no such key.
\<close>

type_synonym query_result = "assessment list list option"

type_synonym collection = "string \<Rightarrow> nat \<Rightarrow> error + query_result"

text \<open>
  \<open>EmbeddingEngine.search\<close>: the whole body is inside \<open>try\<close>, and the handler returns the
  empty list.
\<close>

definition search :: "collection \<Rightarrow> string \<Rightarrow> nat \<Rightarrow> error + assessment list" where
  "search coll query n_results =
     (case coll query n_results of
        Inl e \<Rightarrow> Inr []
      | Inr results \<Rightarrow>
          (case results of
             None \<Rightarrow> Inr []
           | Some [] \<Rightarrow> Inr []
           | Some (first # _) \<Rightarrow> Inr first))"

text \<open>\<open>xs[:m]\<close>; a negative \<open>m\<close> counts from the end.\<close>

definition slice_to :: "'a list \<Rightarrow> int \<Rightarrow> 'a list" where
  "slice_to xs m = (if 0 \<le> m then take (nat m) xs else take (length xs - nat (- m)) xs)"

text \<open>
  \<open>process_query\<close> over the injected engine's \<open>search\<close>. It has no handler: an error of
  the engine leaves it as it came.
\<close>

definition process_query ::
  "(string \<Rightarrow> nat \<Rightarrow> error + assessment list) \<Rightarrow> string \<Rightarrow> int \<Rightarrow> error + assessment list" where
  "process_query engine_search query max_results =
     (let cs = extract_constraints query
      in case engine_search query 20 of
           Inl e \<Rightarrow> Inl e
         | Inr search_results \<Rightarrow>
             (let filtered_results = filter_assessments search_results cs
              in Inr (if filtered_results \<noteq> [] then slice_to filtered_results max_results
                      else slice_to search_results max_results)))"

section \<open>Sample data\<close>

definition rec_java_20 :: assessment where
  "rec_java_20 =
     \<lparr> name = Some ''Java 8 Test'', url = None,
       description = Some ''Measures knowledge of Java'',
       assessment.duration = Some ''20 minutes'', remote_testing = Some ''Yes'',
       adaptive_irt = Some ''No'', test_type = Some ''Coding & Technical'' \<rparr>"

definition rec_verbal_45 :: assessment where
  "rec_verbal_45 =
     \<lparr> name = Some ''Verbal Reasoning'', url = None,
       description = Some ''A test of verbal ability'',
       assessment.duration = Some ''45 minutes'', remote_testing = Some ''Yes'',
       adaptive_irt = Some ''No'', test_type = Some ''Cognitive Ability'' \<rparr>"

definition rec_java_25 :: assessment where
  "rec_java_25 =
     \<lparr> name = Some ''Core JAVA'', url = None,
       description = Some ''Entry level'',
       assessment.duration = Some ''approx 25 min'', remote_testing = None,
       adaptive_irt = None, test_type = None \<rparr>"

definition rec_sales :: assessment where
  "rec_sales =
     \<lparr> name = Some ''Sales Scenarios'', url = None,
       description = Some ''Situational judgement'',
       assessment.duration = Some ''Unknown'', remote_testing = None,
       adaptive_irt = None, test_type = Some ''Unknown'' \<rparr>"

definition max_10 :: constraints where
  "max_10 = \<lparr> max_duration = Some 10, constraints.duration = None, skills = None, test_types = None \<rparr>"

definition max_30_java :: constraints where
  "max_30_java =
     \<lparr> max_duration = Some 30, constraints.duration = None, skills = Some [''java''],
       test_types = None \<rparr>"

definition only_python :: constraints where
  "only_python =
     \<lparr> max_duration = None, constraints.duration = None, skills = Some [''python''],
       test_types = None \<rparr>"

text \<open>A collection whose query raises, and one that answers from a fixed ranking.\<close>

definition failing_collection :: collection where
  "failing_collection = (\<lambda>query n. Inl (Exception ''index unavailable''))"

definition fixed_collection :: "assessment list \<Rightarrow> collection" where
  "fixed_collection rs = (\<lambda>query n. Inr (Some [take n rs]))"

text \<open>An engine whose own \<open>search\<close> raises, and one that answers from a fixed ranking.\<close>

definition failing_engine :: "string \<Rightarrow> nat \<Rightarrow> error + assessment list" where
  "failing_engine = (\<lambda>query n. Inl (Exception ''engine down''))"

definition fixed_engine :: "assessment list \<Rightarrow> string \<Rightarrow> nat \<Rightarrow> error + assessment list" where
  "fixed_engine rs = (\<lambda>query n. Inr (take n rs))"

section \<open>The stages of the filter\<close>

lemma skills_stage_cases:
  "skills_stage cs xs = xs \<or> (\<exists>sk. skills cs = Some sk \<and> skills_stage cs xs = filter (skill_hit sk) xs \<and> filter (skill_hit sk) xs \<noteq> [])"
  by (auto simp: skills_stage_def Let_def split: option.splits)

lemma types_stage_cases:
  "types_stage cs xs = xs \<or> (\<exists>ts. test_types cs = Some ts \<and> types_stage cs xs = filter (type_hit ts) xs \<and> filter (type_hit ts) xs \<noteq> [])"
  by (auto simp: types_stage_def Let_def split: option.splits)

lemma duration_stage_is_filter: "\<exists>P. duration_stage cs xs = filter P xs"
proof (cases "max_duration cs")
  case (Some d)
  then show ?thesis unfolding duration_stage_def by auto
next
  case None
  show ?thesis
  proof (cases "constraints.duration cs")
    case (Some d)
    with None show ?thesis unfolding duration_stage_def by auto
  next
    case n2: None
    with None have "duration_stage cs xs = filter (\<lambda>_. True) xs" by (simp add: duration_stage_def)
    then show ?thesis by blast
  qed
qed

lemma skills_stage_is_filter: "\<exists>P. skills_stage cs xs = filter P xs"
proof -
  from skills_stage_cases [of cs xs] show ?thesis
  proof
    assume "skills_stage cs xs = xs"
    then have "skills_stage cs xs = filter (\<lambda>_. True) xs" by simp
    then show ?thesis by blast
  next
    assume "\<exists>sk. skills cs = Some sk \<and> skills_stage cs xs = filter (skill_hit sk) xs \<and> filter (skill_hit sk) xs \<noteq> []"
    then show ?thesis by blast
  qed
qed

lemma types_stage_is_filter: "\<exists>P. types_stage cs xs = filter P xs"
proof -
  from types_stage_cases [of cs xs] show ?thesis
  proof
    assume "types_stage cs xs = xs"
    then have "types_stage cs xs = filter (\<lambda>_. True) xs" by simp
    then show ?thesis by blast
  next
    assume "\<exists>ts. test_types cs = Some ts \<and> types_stage cs xs = filter (type_hit ts) xs \<and> filter (type_hit ts) xs \<noteq> []"
    then show ?thesis by blast
  qed
qed

lemma filter_assessments_is_filter: "\<exists>P. filter_assessments xs cs = filter P xs"
proof -
  obtain P1 where p1: "duration_stage cs xs = filter P1 xs"
    using duration_stage_is_filter by blast
  obtain P2 where p2: "skills_stage cs (filter P1 xs) = filter P2 (filter P1 xs)"
    using skills_stage_is_filter by blast
  obtain P3 where p3: "types_stage cs (filter P2 (filter P1 xs)) = filter P3 (filter P2 (filter P1 xs))"
    using types_stage_is_filter by blast
  have "filter_assessments xs cs = filter P3 (filter P2 (filter P1 xs))"
    by (simp only: filter_assessments_def p1 p2 p3)
  then show ?thesis by (metis filter_filter)
qed

lemma count_list_filter_le: "count_list (filter P xs) a \<le> count_list xs a"
  by (induction xs) auto

lemma skills_stage_nonempty: "xs \<noteq> [] \<Longrightarrow> skills_stage cs xs \<noteq> []"
  using skills_stage_cases [of cs xs] by auto

lemma types_stage_nonempty: "xs \<noteq> [] \<Longrightarrow> types_stage cs xs \<noteq> []"
  using types_stage_cases [of cs xs] by auto

lemma skills_stage_empty [simp]: "skills_stage cs [] = []"
  by (simp add: skills_stage_def split: option.splits)

lemma types_stage_empty [simp]: "types_stage cs [] = []"
  by (simp add: types_stage_def split: option.splits)

lemma filter_assessments_nonempty_iff:
  "filter_assessments xs cs \<noteq> [] \<longleftrightarrow> duration_stage cs xs \<noteq> []"
proof (cases "duration_stage cs xs = []")
  case True
  then show ?thesis by (simp add: filter_assessments_def)
next
  case False
  then show ?thesis
    by (simp add: filter_assessments_def skills_stage_nonempty types_stage_nonempty)
qed

lemma duration_stage_no_constraint:
  "max_duration cs = None \<Longrightarrow> constraints.duration cs = None \<Longrightarrow> duration_stage cs xs = xs"
  by (simp add: duration_stage_def)

section \<open>Facts about the matcher\<close>

lemma greedy_nonempty: "greedy k p r g \<noteq> []"
  by (induction r arbitrary: p) auto

lemma search_digits_None: "search_from (Grp (Many1 Digit)) p s = None \<longleftrightarrow> \<not> list_ex is_digit s"
proof (induction s arbitrary: p)
  case Nil
  show ?case by simp
next
  case (Cons x xs)
  show ?case
  proof (cases "is_digit x")
    case True
    then show ?thesis
      using greedy_nonempty [of Digit "Some x" xs "[]"]
      by (cases "greedy Digit (Some x) xs []") auto
  next
    case False
    then show ?thesis using Cons.IH by simp
  qed
qed

lemma duration_value_None:
  "duration_value a = None \<longleftrightarrow>
     (case assessment.duration a of None \<Rightarrow> True | Some s \<Rightarrow> \<not> list_ex is_digit s)"
proof (cases "assessment.duration a")
  case None
  then show ?thesis by (simp add: duration_value_def)
next
  case (Some s)
  have "(re_search (Grp (Many1 Digit)) s = None) = (\<not> list_ex is_digit s)"
    unfolding re_search_def by (rule search_digits_None)
  with Some show ?thesis
    by (cases "re_search (Grp (Many1 Digit)) s") (simp_all add: duration_value_def)
qed

lemma search_from_position:
  "search_from e p s = Some m \<Longrightarrow> \<exists>u v p'. s = u @ v \<and> ms e (p', v, []) \<noteq> []"
proof (induction s arbitrary: p)
  case Nil
  then have "[] = [] @ ([]::string) \<and> ms e (p, [], []) \<noteq> []" by (auto split: list.splits)
  then show ?case by blast
next
  case (Cons x xs)
  show ?case
  proof (cases "ms e (p, x # xs, [])")
    case Nil
    with Cons.prems have "search_from e (Some x) xs = Some m" by simp
    from Cons.IH [OF this] obtain u v p' where "xs = u @ v" "ms e (p', v, []) \<noteq> []" by blast
    then have "x # xs = (x # u) @ v \<and> ms e (p', v, []) \<noteq> []" by simp
    then show ?thesis by blast
  next
    case (Cons s ss)
    then have "x # xs = [] @ (x # xs) \<and> ms e (p, x # xs, []) \<noteq> []" by simp
    then show ?thesis by blast
  qed
qed

lemma is_word_plus: "\<not> is_word CHR ''+''"
  by (simp add: is_word_def)

lemma concat_map_concat:
  "concat (map f (concat (map h xs))) = concat (map (\<lambda>t. concat (map f (h t))) xs)"
  by (induction xs) auto

lemma ms_Cat_assoc: "ms (Cat (Cat a b) c) s = ms (Cat a (Cat b c)) s"
proof -
  have "ms (Cat b c) = (\<lambda>t. concat (map (ms c) (ms b t)))"
    by (rule ext) simp
  then show ?thesis by (simp add: concat_map_concat)
qed

lemma ms_Cat_Lit:
  "ms (Cat (Lit c) e) (p, r, g) =
     (case r of [] \<Rightarrow> [] | x # xs \<Rightarrow> if x = c then ms e (Some x, xs, g) else [])"
  by (simp split: list.splits)

lemma ms_Cat_WordB: "ms (Cat WordB e) (p, r, g) = (if at_boundary p r then ms e (p, r, g) else [])"
  by simp

lemma ms_Cat_Eps: "ms (Cat Eps e) s = ms e s"
  by simp

lemma cpp_match_shape:
  assumes "ms (Cat WordB (Cat (token_re [CHR ''c'', bslash, CHR ''+'', bslash, CHR ''+'']) WordB)) (p, v, g) \<noteq> []"
  shows "\<exists>x w. v = ''c++'' @ x # w \<and> is_word x"
proof -
  have tok: "token_re [CHR ''c'', bslash, CHR ''+'', bslash, CHR ''+''] = Cat (Lit CHR ''c'') (Cat (Lit CHR ''+'') (Cat (Lit CHR ''+'') Eps))"
    by (simp add: bslash_def)
  have "ms (Cat WordB (Cat (token_re [CHR ''c'', bslash, CHR ''+'', bslash, CHR ''+'']) WordB)) (p, v, g) =
        (if at_boundary p v then
          (case v of [] \<Rightarrow> [] | x # xs \<Rightarrow> if x = CHR ''c'' then
            (case xs of [] \<Rightarrow> [] | y # ys \<Rightarrow> if y = CHR ''+'' then
              (case ys of [] \<Rightarrow> [] | z # zs \<Rightarrow> if z = CHR ''+'' then
                 (if at_boundary (Some z) zs then [(Some z, zs, g)] else []) else []) else []) else [])
         else [])"
    unfolding tok
    by (simp only: ms_Cat_assoc ms_Cat_Lit ms_Cat_WordB ms_Cat_Eps ms.simps(5))
  with assms show ?thesis
    by (auto simp: at_boundary_def is_word_plus bslash_def split: list.splits if_splits)
qed

lemma word_search_cpp:
  assumes "word_search [CHR ''c'', bslash, CHR ''+'', bslash, CHR ''+''] text"
  shows "\<exists>u x w. text = u @ ''c++'' @ x # w \<and> is_word x"
proof -
  from assms obtain m where
    "search_from (Cat WordB (Cat (token_re [CHR ''c'', bslash, CHR ''+'', bslash, CHR ''+'']) WordB)) None text = Some m"
    by (auto simp: word_search_def re_search_def)
  from search_from_position [OF this] obtain u v p' where
    uv: "text = u @ v"
    and m: "ms (Cat WordB (Cat (token_re [CHR ''c'', bslash, CHR ''+'', bslash, CHR ''+'']) WordB)) (p', v, []) \<noteq> []"
    by blast
  from cpp_match_shape [OF m] obtain x w where "v = ''c++'' @ x # w" "is_word x" by blast
  with uv show ?thesis by blast
qed

lemma found_in_set:
  "found_in vocab text = Some found \<Longrightarrow> w \<in> set found \<Longrightarrow> word_search w text"
  by (auto simp: found_in_def Let_def split: if_splits)

text \<open>
  Every match of the two time patterns carries the groups that \<open>extract_constraints\<close>
  reads: one for \<open>time_pattern\<close>, two for \<open>max_time_pattern\<close>.
\<close>

lemma greedy_groups: "s \<in> set (greedy k p r g) \<Longrightarrow> snd (snd s) = g"
  by (induction r arbitrary: p) (auto split: if_splits)

lemma lits_groups: "s \<in> set (ms (lits w) (p, r, g)) \<Longrightarrow> snd (snd s) = g"
proof (induction w arbitrary: p r)
  case Nil
  then show ?case by simp
next
  case (Cons c cs)
  then show ?case by (auto split: list.splits if_splits)
qed

lemma many_groups:
  "s \<in> set (ms (Many0 k) (p, r, g)) \<Longrightarrow> snd (snd s) = g"
  "s \<in> set (ms (Many1 k) (p, r, g)) \<Longrightarrow> snd (snd s) = g"
  by (auto dest: greedy_groups split: list.splits if_splits)

lemma alts_groups: "s \<in> set (ms (alts ws) (p, r, g)) \<Longrightarrow> snd (snd s) = g"
  by (induction ws arbitrary: p r rule: alts.induct) (auto dest: lits_groups)

lemma grp_groups:
  assumes "\<forall>t \<in> set (ms e (p, r, g)). snd (snd t) = g"
    and "s \<in> set (ms (Grp e) (p, r, g))"
  shows "\<exists>x. snd (snd s) = g @ [x]"
  using assms by (auto simp: case_prod_beta)

lemma grp_many1_groups:
  "s \<in> set (ms (Grp (Many1 k)) (p, r, g)) \<Longrightarrow> \<exists>x. snd (snd s) = g @ [x]"
proof (rule grp_groups)
  show "\<forall>t \<in> set (ms (Many1 k) (p, r, g)). snd (snd t) = g"
    using many_groups(2) by blast
qed

lemma grp_alts_groups:
  "s \<in> set (ms (Grp (alts ws)) (p, r, g)) \<Longrightarrow> \<exists>x. snd (snd s) = g @ [x]"
proof (rule grp_groups)
  show "\<forall>t \<in> set (ms (alts ws) (p, r, g)). snd (snd t) = g"
    using alts_groups by blast
qed

lemma search_from_member:
  "search_from e p s = Some m \<Longrightarrow> \<exists>p' r. m \<in> set (ms e (p', r, []))"
proof (induction s arbitrary: p)
  case Nil
  then have "m \<in> set (ms e (p, [], []))" by (auto split: list.splits)
  then show ?case by blast
next
  case (Cons x xs)
  show ?case
  proof (cases "ms e (p, x # xs, [])")
    case Nil
    with Cons.prems have "search_from e (Some x) xs = Some m" by simp
    from Cons.IH [OF this] show ?thesis .
  next
    case (Cons s ss)
    with Cons.prems have "m \<in> set (ms e (p, x # xs, []))" by simp
    then show ?thesis by blast
  qed
qed

lemma time_pattern_groups:
  assumes "re_search time_pattern s = Some m"
  shows "length (snd (snd m)) = 1"
proof -
  from assms obtain p r where "m \<in> set (ms time_pattern (p, r, []))"
    unfolding re_search_def using search_from_member by blast
  then obtain s1 s2 where
    s1: "s1 \<in> set (ms (Grp (Many1 Digit)) (p, r, []))"
    and s2: "s2 \<in> set (ms (Many0 Space) s1)"
    and m: "m \<in> set (ms (lits ''minutes'') s2)"
    unfolding time_pattern_def by (auto simp del: ms.simps(3,4,8) lits.simps)
  from grp_many1_groups [OF s1] obtain x where g1: "snd (snd s1) = [x]" by auto
  from s2 g1 have g2: "snd (snd s2) = [x]" using many_groups(1) by (cases s1) auto
  from m g2 have "snd (snd m) = [x]" using lits_groups by (cases s2) auto
  then show ?thesis by simp
qed

lemma max_time_pattern_groups:
  assumes "re_search max_time_pattern s = Some m"
  shows "length (snd (snd m)) = 2"
proof -
  from assms obtain p r where "m \<in> set (ms max_time_pattern (p, r, []))"
    unfolding re_search_def using search_from_member by blast
  then obtain s1 s2 s3 s4 where
    s1: "s1 \<in> set (ms (Grp (alts [''less than'', ''max'', ''maximum'', ''under'', ''within'', ''up to''])) (p, r, []))"
    and s2: "s2 \<in> set (ms (Many0 Space) s1)"
    and s3: "s3 \<in> set (ms (Grp (Many1 Digit)) s2)"
    and s4: "s4 \<in> set (ms (Many0 Space) s3)"
    and m: "m \<in> set (ms (lits ''min'') s4)"
    unfolding max_time_pattern_def by (auto simp del: ms.simps(3,4,8) lits.simps alts.simps)
  from grp_alts_groups [OF s1] obtain x where g1: "snd (snd s1) = [x]" by auto
  from s2 g1 have g2: "snd (snd s2) = [x]" using many_groups(1) by (cases s1) auto
  obtain p2 r2 where s2e: "s2 = (p2, r2, [x])" using g2 by (cases s2) auto
  from grp_many1_groups [OF s3 [unfolded s2e]] obtain y where g3: "snd (snd s3) = [x, y]" by auto
  from s4 g3 have g4: "snd (snd s4) = [x, y]" using many_groups(1) by (cases s3) auto
  from m g4 have "snd (snd m) = [x, y]" using lits_groups by (cases s4) auto
  then show ?thesis by simp
qed

section \<open>The orchestrator, step by step\<close>

lemma stage_subsets:
  "set (skills_stage cs xs) \<subseteq> set xs" "set (types_stage cs xs) \<subseteq> set xs"
  using skills_stage_cases [of cs xs] types_stage_cases [of cs xs] by auto

lemma slice_to_take: "0 \<le> m \<Longrightarrow> slice_to xs m = take (nat m) xs"
  by (simp add: slice_to_def)

lemma process_query_Inr:
  "engine_search query 20 = Inr rs \<Longrightarrow>
   process_query engine_search query m =
     Inr (if filter_assessments rs (extract_constraints query) \<noteq> []
          then slice_to (filter_assessments rs (extract_constraints query)) m
          else slice_to rs m)"
  by (simp add: process_query_def Let_def)

lemma search_total: "\<exists>rs. search coll query n = Inr rs"
  by (simp add: search_def split: sum.splits option.splits list.splits)

lemma filter_assessments_length: "length (filter_assessments xs cs) \<le> length xs"
proof -
  obtain P where "filter_assessments xs cs = filter P xs"
    using filter_assessments_is_filter by blast
  then show ?thesis by simp
qed

section \<open>The filter never grows or reorders the candidates\<close>

text \<open>
  Claim C8. \<open>filter_assessments\<close> rebinds a local name at every stage and never writes
  to the list it was given, which is why the model is a function of the input list. For
  every record list and every constraint set the output is an order-preserving
  subsequence of the input: every output record occurs in the input, no record occurs in
  the output more often than in the input, and the relative order is the input's.
\<close>

theorem filter_is_subsequence:
  "subseq (filter_assessments xs cs) xs \<and> set (filter_assessments xs cs) \<subseteq> set xs
  \<and> (\<forall>a. count_list (filter_assessments xs cs) a \<le> count_list xs a)"
proof -
  obtain P where "filter_assessments xs cs = filter P xs"
    using filter_assessments_is_filter by blast
  then show ?thesis by (simp add: count_list_filter_le)
qed

text \<open>Scenario A of the specification: the two Java records under 30 minutes, in order.\<close>

theorem filter_is_subsequence_witness:
  "filter_assessments [rec_java_20, rec_verbal_45, rec_java_25, rec_sales] max_30_java = [rec_java_20, rec_java_25]
   \<and> subseq [rec_java_20, rec_java_25] [rec_java_20, rec_verbal_45, rec_java_25, rec_sales]"
proof -
  have ev: "filter_assessments [rec_java_20, rec_verbal_45, rec_java_25, rec_sales] max_30_java = [rec_java_20, rec_java_25]"
    by code_simp
  from filter_is_subsequence [of "[rec_java_20, rec_verbal_45, rec_java_25, rec_sales]" max_30_java]
  show ?thesis unfolding ev by simp
qed

section \<open>Which stages fall back\<close>

text \<open>
  Claim C1, as stated: a non-empty candidate list always gives a non-empty result, the
  duration stage included. The duration stage has no fallback: one record of 45 minutes
  under a bound of 10 minutes leaves nothing.
\<close>

theorem filter_empties_counterexample:
  "[rec_verbal_45] \<noteq> [] \<and> filter_assessments [rec_verbal_45] max_10 = []"
  by code_simp

text \<open>
  Claim C1, amended. For every non-empty list of records and every constraint set, the
  skills stage and the test-type stage each return a non-empty list (a stage whose
  narrowing would eliminate every candidate falls back to its input); the duration stage
  has no fallback, so \<open>filter_assessments\<close> returns a non-empty list exactly when at
  least one record passes the duration stage, in particular whenever neither
  \<open>max_duration\<close> nor \<open>duration\<close> is set.
\<close>

theorem filter_nonempty_after_duration:
  assumes "xs \<noteq> []"
  shows "skills_stage cs xs \<noteq> [] \<and> types_stage cs xs \<noteq> []
       \<and> (filter_assessments xs cs \<noteq> [] \<longleftrightarrow> duration_stage cs xs \<noteq> [])
       \<and> (max_duration cs = None \<and> constraints.duration cs = None \<longrightarrow> filter_assessments xs cs \<noteq> [])"
  using assms
  by (simp add: skills_stage_nonempty types_stage_nonempty filter_assessments_nonempty_iff
      duration_stage_no_constraint)

theorem filter_nonempty_after_duration_witness:
  "[rec_verbal_45, rec_java_20] \<noteq> []
   \<and> skills_stage only_python [rec_verbal_45, rec_java_20] = [rec_verbal_45, rec_java_20]
   \<and> filter_assessments [rec_verbal_45, rec_java_20] only_python \<noteq> []"
proof -
  have ne: "[rec_verbal_45, rec_java_20] \<noteq> []" by simp
  have st: "skills_stage only_python [rec_verbal_45, rec_java_20] = [rec_verbal_45, rec_java_20]"
    by code_simp
  have cs: "max_duration only_python = None \<and> constraints.duration only_python = None"
    by (simp add: only_python_def)
  from filter_nonempty_after_duration [OF ne, of only_python] cs st ne show ?thesis by blast
qed

section \<open>The skills stage\<close>


lemma extract_constraints_skills_vocab:
  "skills (extract_constraints query) = Some sk \<Longrightarrow> set sk \<subseteq> set tech_skills"
  by (auto simp: extract_constraints_def found_in_def Let_def split: if_splits)



section \<open>The duration stage\<close>

text \<open>
  What \<open>re.search(r"(\d+)", text).group(1)\<close> is: the first run of digits of the text,
  taken whole.
\<close>

lemma greedy_hd:
  "\<exists>p'. hd (greedy k p r g) = (p', dropWhile (in_class k) r, g)"
  by (induction r arbitrary: p) (auto simp: greedy_nonempty)

lemma search_digits_Some:
  assumes "search_from (Grp (Many1 Digit)) p s = Some m"
  shows "group m 1 = takeWhile is_digit (dropWhile (\<lambda>c. \<not> is_digit c) s)"
  using assms
proof (induction s arbitrary: p)
  case Nil
  then show ?case by simp
next
  case (Cons x xs)
  show ?case
  proof (cases "is_digit x")
    case True
    obtain p' where h: "hd (greedy Digit (Some x) xs []) = (p', dropWhile (in_class Digit) xs, [])"
      using greedy_hd by blast
    obtain s0 ss where g: "greedy Digit (Some x) xs [] = s0 # ss"
      using greedy_nonempty [of Digit "Some x" xs "[]"] by (cases "greedy Digit (Some x) xs []") auto
    with h have s0: "s0 = (p', dropWhile is_digit xs, [])" 
      by (simp add: in_class.simps [abs_def] cong: dropWhile_cong)
    have len: "length (x # xs) - length (dropWhile is_digit xs) = Suc (length (takeWhile is_digit xs))"
      by (metis Suc_diff_le length_Cons length_dropWhile_le takeWhile_dropWhile_id length_append add_diff_cancel_right')
    from Cons.prems True g s0 have "m = (p', dropWhile is_digit xs, [take (length (x # xs) - length (dropWhile is_digit xs)) (x # xs)])"
      by simp
    then have "group m 1 = x # takeWhile is_digit xs"
      unfolding len by (simp add: group_def takeWhile_eq_take [symmetric])
    with True show ?thesis by simp
  next
    case False
    with Cons.prems have "search_from (Grp (Many1 Digit)) (Some x) xs = Some m" by simp
    from Cons.IH [OF this] False show ?thesis by simp
  qed
qed

lemma duration_value_eq:
  "duration_value a =
     (case assessment.duration a of
        None \<Rightarrow> None
      | Some s \<Rightarrow>
          if list_ex is_digit s
          then Some (py_int (takeWhile is_digit (dropWhile (\<lambda>c. \<not> is_digit c) s)))
          else None)"
proof (cases "assessment.duration a")
  case None
  then show ?thesis by (simp add: duration_value_def)
next
  case (Some s)
  show ?thesis
  proof (cases "search_from (Grp (Many1 Digit)) None s")
    case None
    then have "\<not> list_ex is_digit s" by (simp add: search_digits_None)
    with None Some show ?thesis by (simp add: duration_value_def re_search_def)
  next
    case (Some m)
    then have "search_from (Grp (Many1 Digit)) None s \<noteq> None" by simp
    then have d: "list_ex is_digit s" by (simp add: search_digits_None)
    from search_digits_Some [OF Some]
    have "group m 1 = takeWhile is_digit (dropWhile (\<lambda>c. \<not> is_digit c) s)" .
    with Some d \<open>assessment.duration a = Some s\<close> show ?thesis
      by (simp add: duration_value_def re_search_def)
  qed
qed

text \<open>
  Claim C6. For every record list and every constraint set with \<open>max_duration = d\<close>:
  every record in the output of the duration stage has a duration field that contains a
  digit, and the integer the code reads from it (its first run of digits) is at most
  \<open>d\<close>; every record whose duration field is absent or has no digit is excluded by
  that stage. The later stages only select among what the duration stage kept, so the
  same holds of the result of \<open>filter_assessments\<close>.
\<close>

theorem duration_stage_bound:
  assumes "max_duration cs = Some d"
  shows "(\<forall>a \<in> set (duration_stage cs xs).
            \<exists>s. assessment.duration a = Some s \<and> list_ex is_digit s
               \<and> py_int (takeWhile is_digit (dropWhile (\<lambda>c. \<not> is_digit c) s)) \<le> d)
       \<and> (\<forall>a \<in> set xs.
            (case assessment.duration a of None \<Rightarrow> True | Some s \<Rightarrow> \<not> list_ex is_digit s)
            \<longrightarrow> a \<notin> set (duration_stage cs xs))
       \<and> set (filter_assessments xs cs) \<subseteq> set (duration_stage cs xs)"
proof (intro conjI ballI impI)
  fix a
  assume "a \<in> set (duration_stage cs xs)"
  with assms obtain n where "duration_value a = Some n" "n \<le> d"
    by (auto simp: duration_stage_def split: option.splits)
  then show "\<exists>s. assessment.duration a = Some s \<and> list_ex is_digit s
               \<and> py_int (takeWhile is_digit (dropWhile (\<lambda>c. \<not> is_digit c) s)) \<le> d"
    by (auto simp: duration_value_eq split: option.splits if_splits)
next
  fix a
  assume "a \<in> set xs"
    and "case assessment.duration a of None \<Rightarrow> True | Some s \<Rightarrow> \<not> list_ex is_digit s"
  then have "duration_value a = None" by (simp add: duration_value_None)
  with assms show "a \<notin> set (duration_stage cs xs)"
    by (simp add: duration_stage_def)
next
  show "set (filter_assessments xs cs) \<subseteq> set (duration_stage cs xs)"
    unfolding filter_assessments_def
    using stage_subsets(1) [of cs "duration_stage cs xs"]
      stage_subsets(2) [of cs "skills_stage cs (duration_stage cs xs)"]
    by blast
qed

theorem duration_stage_bound_witness:
  "max_duration max_30_java = Some 30
   \<and> duration_stage max_30_java [rec_java_20, rec_verbal_45, rec_java_25, rec_sales] = [rec_java_20, rec_java_25]
   \<and> rec_sales \<notin> set (duration_stage max_30_java [rec_java_20, rec_verbal_45, rec_java_25, rec_sales])
   \<and> (\<exists>s. assessment.duration rec_java_25 = Some s \<and> list_ex is_digit s
               \<and> py_int (takeWhile is_digit (dropWhile (\<lambda>c. \<not> is_digit c) s)) \<le> 30)"
proof -
  have m: "max_duration max_30_java = Some 30" by (simp add: max_30_java_def)
  have ev: "duration_stage max_30_java [rec_java_20, rec_verbal_45, rec_java_25, rec_sales] = [rec_java_20, rec_java_25]"
    by code_simp
  have nd: "case assessment.duration rec_sales of None \<Rightarrow> True | Some s \<Rightarrow> \<not> list_ex is_digit s"
    by code_simp
  note b = duration_stage_bound [OF m, of "[rec_java_20, rec_verbal_45, rec_java_25, rec_sales]"]
  from b nd have x: "rec_sales \<notin> set (duration_stage max_30_java [rec_java_20, rec_verbal_45, rec_java_25, rec_sales])"
    by simp
  from b have "\<forall>a \<in> set [rec_java_20, rec_java_25].
            \<exists>s. assessment.duration a = Some s \<and> list_ex is_digit s
               \<and> py_int (takeWhile is_digit (dropWhile (\<lambda>c. \<not> is_digit c) s)) \<le> 30"
    unfolding ev by blast
  then have y: "\<exists>s. assessment.duration rec_java_25 = Some s \<and> list_ex is_digit s
               \<and> py_int (takeWhile is_digit (dropWhile (\<lambda>c. \<not> is_digit c) s)) \<le> 30"
    by simp
  from m ev x y show ?thesis by blast
qed

section \<open>A failing index\<close>

text \<open>
  Claim C3, as stated: an error raised by the underlying index query leaves
  \<open>process_query\<close> uncaught. With the repository's engine it does not: \<open>search\<close>
  catches it and answers the empty list, and \<open>process_query\<close> returns the empty list.
\<close>

theorem index_error_counterexample:
  "failing_collection ''java test'' 20 = Inl (Exception ''index unavailable'')
   \<and> process_query (search failing_collection) ''java test'' 10 = Inr []"
  by code_simp

text \<open>
  Claim C3, amended. If the underlying index query raises an error,
  \<open>EmbeddingEngine.search\<close> catches it and returns the empty list, so
  \<open>process_query\<close> returns the empty list and no error reaches its caller.
  \<open>process_query\<close> itself has no handler and no retry: an error raised by the
  engine's \<open>search\<close> call itself leaves \<open>process_query\<close> unchanged.
\<close>

theorem index_error_swallowed:
  "(coll query 20 = Inl e \<longrightarrow> process_query (search coll) query max_results = Inr [])
   \<and> (engine_search query 20 = Inl e \<longrightarrow> process_query engine_search query max_results = Inl e)"
  by (simp add: process_query_def search_def slice_to_def filter_assessments_def duration_stage_def
      split: option.splits)

theorem index_error_swallowed_witness:
  "failing_collection ''java test'' 20 = Inl (Exception ''index unavailable'')
   \<and> process_query (search failing_collection) ''java test'' 10 = Inr []
   \<and> failing_engine ''java test'' 20 = Inl (Exception ''engine down'')
   \<and> process_query failing_engine ''java test'' 10 = Inl (Exception ''engine down'')"
proof -
  have a: "failing_collection ''java test'' 20 = Inl (Exception ''index unavailable'')"
    by (simp add: failing_collection_def)
  have b: "failing_engine ''java test'' 20 = Inl (Exception ''engine down'')"
    by (simp add: failing_engine_def)
  note sw = index_error_swallowed [where coll = failing_collection and query = "''java test''"
      and e = "Exception ''index unavailable''" and max_results = 10
      and engine_search = failing_engine]
  note en = index_error_swallowed [where coll = failing_collection and query = "''java test''"
      and e = "Exception ''engine down''" and max_results = 10
      and engine_search = failing_engine]
  from sw a have c: "process_query (search failing_collection) ''java test'' 10 = Inr []"
    by blast
  from en b have d: "process_query failing_engine ''java test'' 10 = Inl (Exception ''engine down'')"
    by blast
  from a b c d show ?thesis by blast
qed

section \<open>The orchestrator\<close>

text \<open>
  Claim C4. For every query and every \<open>max_results \<ge> 1\<close>, when the semantic search
  returns a list, \<open>process_query\<close> returns a list (it raises nothing), and that list is
  empty if and only if the search returned the empty list; when the search returns a
  non-empty list and filtering empties it, the result is the first \<open>max_results\<close> of the
  raw search results.
\<close>

theorem process_query_empty_iff:
  assumes "1 \<le> max_results" and "engine_search query 20 = Inr search_results"
  shows "\<exists>out. process_query engine_search query max_results = Inr out
           \<and> (out = [] \<longleftrightarrow> search_results = [])
           \<and> (search_results \<noteq> [] \<and> filter_assessments search_results (extract_constraints query) = []
                \<longrightarrow> out = take (nat max_results) search_results)"
proof -
  let ?f = "filter_assessments search_results (extract_constraints query)"
  from assms(1) have m: "0 \<le> max_results" "0 < nat max_results" by simp_all
  have fe: "search_results = [] \<Longrightarrow> ?f = []"
    using filter_assessments_length [of "[]" "extract_constraints query"] by simp
  show ?thesis
  proof (cases "?f = []")
    case True
    with assms(2) m have "process_query engine_search query max_results = Inr (take (nat max_results) search_results)"
      by (simp add: process_query_Inr slice_to_take)
    moreover from m have "(take (nat max_results) search_results = []) = (search_results = [])"
      by (simp add: take_eq_Nil)
    ultimately show ?thesis by simp
  next
    case False
    with assms(2) m have "process_query engine_search query max_results = Inr (take (nat max_results) ?f)"
      by (simp add: process_query_Inr slice_to_take)
    moreover from m False have "take (nat max_results) ?f \<noteq> []"
      by (simp add: take_eq_Nil)
    moreover from False fe have "search_results \<noteq> []" by blast
    ultimately show ?thesis using False by simp
  qed
qed

text \<open>
  A bound of 10 minutes on two longer records: the filter leaves nothing and the first raw
  result comes back; an empty index gives the empty list.
\<close>

theorem process_query_empty_iff_witness:
  "(1::int) \<le> 1
   \<and> fixed_engine [rec_verbal_45, rec_java_20] ''under 10 minutes'' 20 = Inr [rec_verbal_45, rec_java_20]
   \<and> filter_assessments [rec_verbal_45, rec_java_20] (extract_constraints ''under 10 minutes'') = []
   \<and> process_query (fixed_engine [rec_verbal_45, rec_java_20]) ''under 10 minutes'' 1 = Inr [rec_verbal_45]
   \<and> fixed_engine [] ''under 10 minutes'' 20 = Inr []
   \<and> process_query (fixed_engine []) ''under 10 minutes'' 1 = Inr []"
proof -
  have one: "(1::int) \<le> 1" by simp
  have e1: "fixed_engine [rec_verbal_45, rec_java_20] ''under 10 minutes'' 20 = Inr [rec_verbal_45, rec_java_20]"
    by (simp add: fixed_engine_def)
  have e2: "fixed_engine [] ''under 10 minutes'' 20 = Inr []"
    by (simp add: fixed_engine_def)
  have f: "filter_assessments [rec_verbal_45, rec_java_20] (extract_constraints ''under 10 minutes'') = []"
    by code_simp
  from process_query_empty_iff [where engine_search = "fixed_engine [rec_verbal_45, rec_java_20]"
      and query = "''under 10 minutes''" and max_results = 1
      and search_results = "[rec_verbal_45, rec_java_20]", OF one e1] f
  have a: "process_query (fixed_engine [rec_verbal_45, rec_java_20]) ''under 10 minutes'' 1 = Inr [rec_verbal_45]"
    by auto
  from process_query_empty_iff [where engine_search = "fixed_engine []"
      and query = "''under 10 minutes''" and max_results = 1 and search_results = "[]", OF one e2]
  have b: "process_query (fixed_engine []) ''under 10 minutes'' 1 = Inr []"
    by auto
  from one e1 e2 f a b show ?thesis by blast
qed

text \<open>
  Claim C9. For every query and every \<open>max_results \<ge> 1\<close>, \<open>process_query\<close> returns at
  most \<open>max_results\<close> records, and it returns (raises nothing) however few records the
  search gave, also fewer than the 20 it asked for; with the repository's engine it
  always returns.
\<close>

theorem process_query_at_most_max_results:
  assumes "1 \<le> max_results"
  shows "(\<forall>rs. engine_search query 20 = Inr rs \<longrightarrow>
            (\<exists>out. process_query engine_search query max_results = Inr out
                  \<and> int (length out) \<le> max_results \<and> length out \<le> length rs))
       \<and> (\<exists>out. process_query (search coll) query max_results = Inr out
                  \<and> int (length out) \<le> max_results)"
proof -
  from assms have m: "0 \<le> max_results" by simp
  have gen: "\<exists>out. process_query eng query max_results = Inr out
                  \<and> int (length out) \<le> max_results \<and> length out \<le> length rs"
    if "eng query 20 = Inr rs" for eng rs
  proof -
    have "length (filter_assessments rs (extract_constraints query)) \<le> length rs"
      by (rule filter_assessments_length)
    moreover have "int (min k (nat max_results)) \<le> max_results" for k
      using m by linarith
    ultimately show ?thesis
      using that m by (simp add: process_query_Inr slice_to_take min.coboundedI1)
  qed
  obtain rs where rs: "search coll query 20 = Inr rs" using search_total by blast
  have "\<exists>out. process_query (search coll) query max_results = Inr out
                  \<and> int (length out) \<le> max_results \<and> length out \<le> length rs"
    using rs by (rule gen)
  with gen show ?thesis by blast
qed

theorem process_query_at_most_max_results_witness:
  "(1::int) \<le> 2
   \<and> fixed_engine [rec_java_20] ''java'' 20 = Inr [rec_java_20]
   \<and> process_query (fixed_engine [rec_java_20]) ''java'' 2 = Inr [rec_java_20]
   \<and> process_query (search (fixed_collection [rec_java_20, rec_verbal_45, rec_java_25])) ''java'' 1 = Inr [rec_java_20]"
proof -
  have a: "(1::int) \<le> 2" by simp
  have e: "fixed_engine [rec_java_20] ''java'' 20 = Inr [rec_java_20]"
    by (simp add: fixed_engine_def)
  have p: "process_query (fixed_engine [rec_java_20]) ''java'' 2 = Inr [rec_java_20]"
    by code_simp
  have q: "process_query (search (fixed_collection [rec_java_20, rec_verbal_45, rec_java_25])) ''java'' 1 = Inr [rec_java_20]"
    by code_simp
  from process_query_at_most_max_results [OF a, of "fixed_engine [rec_java_20]" "''java''"] e p q a
  show ?thesis by blast
qed

section \<open>What the extractor returns\<close>

text \<open>
  Claim C2 asks for case-insensitive matching in every field. The bounded-time, skills
  and test-type searches all run on \<open>query.lower()\<close>; the search for the bare
  \<open>(\d+)\s*minutes\<close> runs on the query as typed. Two letter-case variants of one query
  therefore differ in the duration field.
\<close>

theorem duration_pattern_case_sensitive:
  "lower ''30 MINUTES'' = lower ''30 minutes''
   \<and> extract_constraints ''30 minutes'' =
       \<lparr> max_duration = None, constraints.duration = Some 30, skills = None, test_types = None \<rparr>
   \<and> extract_constraints ''30 MINUTES'' =
       \<lparr> max_duration = None, constraints.duration = None, skills = None, test_types = None \<rparr>"
  by code_simp

text \<open>
  Claim C5. For every query the constraint set never has both \<open>max_duration\<close> and
  \<open>duration\<close>: whenever the bounded-time pattern matches, \<open>max_duration\<close> is the
  integer of its second group and \<open>duration\<close> stays absent, whatever the bare pattern
  finds.
\<close>

theorem duration_keys_exclusive:
  "(max_duration (extract_constraints query) = None
      \<or> constraints.duration (extract_constraints query) = None)
   \<and> (\<forall>m. re_search max_time_pattern (lower query) = Some m \<longrightarrow>
         max_duration (extract_constraints query) = Some (py_int (group m 2))
       \<and> constraints.duration (extract_constraints query) = None)"
  by (auto simp: extract_constraints_def Let_def split: option.splits)

text \<open>Scenario D of the specification: both patterns match, only \<open>max_duration = 20\<close> is set.\<close>

theorem duration_keys_exclusive_witness:
  "re_search time_pattern ''under 20 minutes or 30 minutes'' \<noteq> None
   \<and> re_search max_time_pattern (lower ''under 20 minutes or 30 minutes'')
       = Some (Some CHR ''n'', ''utes or 30 minutes'', [''under'', ''20''])
   \<and> max_duration (extract_constraints ''under 20 minutes or 30 minutes'') = Some 20
   \<and> constraints.duration (extract_constraints ''under 20 minutes or 30 minutes'') = None"
proof -
  have t: "re_search time_pattern ''under 20 minutes or 30 minutes'' \<noteq> None" by code_simp
  have m: "re_search max_time_pattern (lower ''under 20 minutes or 30 minutes'')
       = Some (Some CHR ''n'', ''utes or 30 minutes'', [''under'', ''20''])" by code_simp
  have v: "py_int (group (Some CHR ''n'', ''utes or 30 minutes'', [''under'', ''20'']) 2) = 20"
    by code_simp
  from duration_keys_exclusive [of "''under 20 minutes or 30 minutes''"] m v t
  show ?thesis by simp
qed

text \<open>
  Claim C10. The entry \<open>c\+\+\<close> is searched as \<open>\bc\+\+\b\<close>; after a plus sign the
  closing \<open>\b\<close> holds only before a letter, a digit or an underscore. So for every
  query in which each occurrence of \<open>c++\<close> (in either letter case) is followed by
  whitespace, punctuation or the end of the text, the entry is not among the returned
  skills.
\<close>

theorem cpp_needs_word_successor:
  assumes "\<forall>u v. lower query = u @ ''c++'' @ v \<longrightarrow> v = [] \<or> \<not> is_word (hd v)"
  shows "\<not> word_search [CHR ''c'', bslash, CHR ''+'', bslash, CHR ''+''] (lower query)
       \<and> (\<forall>found. skills (extract_constraints query) = Some found \<longrightarrow>
             [CHR ''c'', bslash, CHR ''+'', bslash, CHR ''+''] \<notin> set found)"
proof -
  have no: "\<not> word_search [CHR ''c'', bslash, CHR ''+'', bslash, CHR ''+''] (lower query)"
  proof
    assume "word_search [CHR ''c'', bslash, CHR ''+'', bslash, CHR ''+''] (lower query)"
    from word_search_cpp [OF this] obtain u x w where
      eq: "lower query = u @ ''c++'' @ x # w" and w: "is_word x" by blast
    from assms eq have "x # w = [] \<or> \<not> is_word (hd (x # w))" by blast
    with w show False by simp
  qed
  have "[CHR ''c'', bslash, CHR ''+'', bslash, CHR ''+''] \<notin> set found"
    if "skills (extract_constraints query) = Some found" for found
  proof
    assume "[CHR ''c'', bslash, CHR ''+'', bslash, CHR ''+''] \<in> set found"
    moreover from that have "found_in tech_skills (lower query) = Some found"
      by (simp add: extract_constraints_def Let_def)
    ultimately have "word_search [CHR ''c'', bslash, CHR ''+'', bslash, CHR ''+''] (lower query)"
      by (rule found_in_set [rotated])
    with no show False by simp
  qed
  with no show ?thesis by blast
qed

theorem cpp_needs_word_successor_witness:
  "lower ''Python or C++ developer'' = ''python or c++ developer''
   \<and> skills (extract_constraints ''Python or C++ developer'') = Some [''python'']
   \<and> [CHR ''c'', bslash, CHR ''+'', bslash, CHR ''+''] \<notin> set [''python'']
   \<and> \<not> word_search [CHR ''c'', bslash, CHR ''+'', bslash, CHR ''+''] (lower ''c++ developer'')"
proof -
  have l: "lower ''Python or C++ developer'' = ''python or c++ developer''" by code_simp
  have l2: "lower ''c++ developer'' = ''c++ developer''" by code_simp
  have nw: "\<not> is_word CHR '' ''" by code_simp
  have h: "\<forall>u v. lower ''Python or C++ developer'' = u @ ''c++'' @ v \<longrightarrow> v = [] \<or> \<not> is_word (hd v)"
    unfolding l using nw by (auto simp: Cons_eq_append_conv)
  have h2: "\<forall>u v. lower ''c++ developer'' = u @ ''c++'' @ v \<longrightarrow> v = [] \<or> \<not> is_word (hd v)"
    unfolding l2 using nw by (auto simp: Cons_eq_append_conv)
  have s: "skills (extract_constraints ''Python or C++ developer'') = Some [''python'']"
    by code_simp
  from cpp_needs_word_successor [OF h] cpp_needs_word_successor [OF h2] s l show ?thesis by blast
qed

end
